theory Spec2Isabelle
  imports Main "HOL-Library.Sublist" "HOL-Library.Log_Nat"
begin

section \<open>Python values used by learningPath.py\<close>

subsection \<open>Strings\<close>

text \<open>
  A Python \<open>str\<close> is a sequence of Unicode code points, so it is modelled as a list of
  natural numbers. \<open>lit\<close> embeds an ASCII literal of the source; the few non-ASCII code
  points of the source are written as numbers.
\<close>

type_synonym str = "nat list"

definition lit :: "string \<Rightarrow> str" where
  "lit s = map of_char s"

text \<open>
  \<open>s.split(sep)\<close> for a separator of one character: the pieces between the
  separators, in order; an empty string gives one empty piece.
\<close>

fun split_on :: "nat \<Rightarrow> str \<Rightarrow> str list" where
  "split_on sep [] = [[]]"
| "split_on sep (c # cs) =
     (if c = sep then [] # split_on sep cs
      else (case split_on sep cs of [] \<Rightarrow> [[c]] | l # ls \<Rightarrow> (c # l) # ls))"

text \<open>
  \<open>str.isspace\<close> of one code point, as CPython decides it: U+0009..U+000D,
  U+001C..U+0020, U+0085, U+00A0, U+1680, U+2000..U+200A, U+2028, U+2029, U+202F, U+205F
  and U+3000. \<open>s.strip()\<close> removes such code points from both ends.
\<close>

definition isspace :: "nat \<Rightarrow> bool" where
  "isspace c \<longleftrightarrow>
     (9 \<le> c \<and> c \<le> 13) \<or> (28 \<le> c \<and> c \<le> 32) \<or> c = 133 \<or> c = 160 \<or> c = 5760 \<or>
     (8192 \<le> c \<and> c \<le> 8202) \<or> c = 8232 \<or> c = 8233 \<or> c = 8239 \<or> c = 8287 \<or> c = 12288"

definition strip :: "str \<Rightarrow> str" where
  "strip s = rev (dropWhile isspace (rev (dropWhile isspace s)))"

text \<open>
  \<open>s.lower()\<close> maps every code point to its lowercase form. For ASCII that is
  \<open>A..Z\<close> to \<open>a..z\<close>. For a code point from U+0080 on, the result comes from the
  Unicode character database, which is no part of the repository: it is the parameter
  \<open>U\<close>, given the text to the left, the code point and the text to the right (the
  lowercase form of a capital sigma depends on its neighbours).
\<close>

type_synonym lowercasing = "str \<Rightarrow> nat \<Rightarrow> str \<Rightarrow> str"

fun lower_from :: "lowercasing \<Rightarrow> str \<Rightarrow> str \<Rightarrow> str" where
  "lower_from U left [] = []"
| "lower_from U left (c # right) =
     (if c < 128 then [if 65 \<le> c \<and> c \<le> 90 then c + 32 else c] else U left c right)
     @ lower_from U (left @ [c]) right"

definition lower :: "lowercasing \<Rightarrow> str \<Rightarrow> str" where
  "lower U s = lower_from U [] s"

definition startswith :: "str \<Rightarrow> str \<Rightarrow> bool" where
  "startswith s p = prefix p s"

text \<open>\<open>sep.join(xs)\<close>.\<close>

fun join :: "str \<Rightarrow> str list \<Rightarrow> str" where
  "join sep [] = []"
| "join sep [x] = x"
| "join sep (x # y # ys) = x @ sep @ join sep (y # ys)"

text \<open>
  \<open>str(i)\<close> of an integer, which is also how an f-string renders \<open>{i}\<close>: the decimal
  digits, after a minus sign when negative. \<open>'{:02d}'.format(i)\<close> pads with zeros
  between sign and digits up to a width of two, and never cuts.
\<close>

function digits :: "nat \<Rightarrow> str" where
  "digits n = (if n < 10 then [48 + n] else digits (n div 10) @ [48 + n mod 10])"
  by pat_completeness auto
termination
  by (relation "measure id") auto

declare digits.simps [simp del]

definition str_of_int :: "int \<Rightarrow> str" where
  "str_of_int i = (if i < 0 then 45 # digits (nat (- i)) else digits (nat i))"

definition format_02d :: "int \<Rightarrow> str" where
  "format_02d i =
     (let sign = (if i < 0 then [45] else []); d = digits (nat \<bar>i\<bar>)
      in sign @ replicate (2 - length sign - length d) 48 @ d)"

subsection \<open>Exceptions\<close>

text \<open>
  The exceptions the modelled code can raise. A function that may raise returns a sum:
  \<open>Inl\<close> is the exception leaving the function, \<open>Inr\<close> its return value.
  \<open>RequestException\<close> stands for the exceptions of the \<open>requests\<close> library
  (connection errors, timeouts), all subclasses of \<open>Exception\<close>; \<open>SecretNotFound\<close> for
  the exception of \<open>st.secrets\<close> when there is no secrets file
  (\<open>StreamlitSecretNotFoundError\<close>, a \<open>FileNotFoundError\<close>).
\<close>

datatype pyerr =
  KeyError | IndexError | TypeError | JSONDecodeError | RequestException
  | ZeroDivisionError | OverflowError | SecretNotFound

subsection \<open>True division of lengths\<close>

text \<open>
  \<open>a / b\<close> on Python integers gives a float: the IEEE 754 double nearest to the exact
  quotient, ties going to the even significand; it raises \<open>ZeroDivisionError\<close> for
  \<open>b = 0\<close> and \<open>OverflowError\<close> when the result is beyond the doubles. The operands
  here are results of \<open>len\<close>, so they are natural numbers. A finite double is modelled
  by the rational number it stands for.

  \<open>binary_exponent q\<close> is \<open>\<lfloor>log\<^sub>2 q\<rfloor>\<close> for \<open>q > 0\<close>; a double has 53 significant bits,
  its exponent is at least \<open>-1022\<close> (below that the spacing stays \<open>2\<^sup>-\<^sup>1\<^sup>0\<^sup>7\<^sup>4\<close>), and its
  value is below \<open>2\<^sup>1\<^sup>0\<^sup>2\<^sup>4\<close>.
\<close>

definition round_half_even :: "rat \<Rightarrow> int" where
  "round_half_even x =
     (let f = \<lfloor>x\<rfloor>; d = x - of_int f
      in if d < 1 / 2 then f else if 1 / 2 < d then f + 1 else if even f then f else f + 1)"

definition binary_exponent :: "rat \<Rightarrow> int" where
  "binary_exponent q = (if 1 \<le> q then bitlen \<lfloor>q\<rfloor> - 1 else - bitlen (\<lceil>1 / q\<rceil> - 1))"

definition nearest_double :: "rat \<Rightarrow> rat option" where
  "nearest_double q =
     (if q = 0 then Some 0
      else let e = max (binary_exponent q) (- 1022);
               ulp = 2 powi (e - 52);
               r = of_int (round_half_even (q / ulp)) * ulp
           in if 2 powi 1024 \<le> r then None else Some r)"

definition truediv :: "nat \<Rightarrow> nat \<Rightarrow> pyerr + rat" where
  "truediv a b =
     (if b = 0 then Inl ZeroDivisionError
      else case nearest_double (of_nat a / of_nat b) of
             None \<Rightarrow> Inl OverflowError
           | Some r \<Rightarrow> Inr r)"

subsection \<open>JSON values\<close>

text \<open>
  The value \<open>response.json()\<close> returns: \<open>None\<close>, a \<open>bool\<close>, a number, a \<open>str\<close>, a
  \<open>list\<close> or a \<open>dict\<close> with \<open>str\<close> keys (an association list here; a Python dict
  holds each key once). The code never looks into a number, so their type is a parameter.
\<close>

datatype 'n json =
  JNull | JBool bool | JNum 'n | JStr str | JArr "'n json list" | JObj "(str \<times> 'n json) list"

text \<open>
  Subscription \<open>v[k]\<close> with a \<open>str\<close> key or a non-negative index. A dict raises
  \<open>KeyError\<close> for a key it does not hold (an integer is never a key of a parsed JSON
  object); a list or a str raises \<open>IndexError\<close> out of range and \<open>TypeError\<close> for a
  \<open>str\<close> subscript; \<open>None\<close>, booleans and numbers are not subscriptable.
\<close>

datatype key = Name str | Idx nat

fun getitem :: "'n json \<Rightarrow> key \<Rightarrow> pyerr + 'n json" where
  "getitem (JObj kvs) (Name k) = (case map_of kvs k of None \<Rightarrow> Inl KeyError | Some v \<Rightarrow> Inr v)"
| "getitem (JObj kvs) (Idx i) = Inl KeyError"
| "getitem (JArr xs) (Idx i) = (if i < length xs then Inr (xs ! i) else Inl IndexError)"
| "getitem (JStr s) (Idx i) = (if i < length s then Inr (JStr [s ! i]) else Inl IndexError)"
| "getitem v k = Inl TypeError"

text \<open>A chain of subscriptions \<open>v[k1][k2]...\<close>: the first exception ends it.\<close>

fun getpath :: "pyerr + 'n json \<Rightarrow> key list \<Rightarrow> pyerr + 'n json" where
  "getpath r [] = r"
| "getpath (Inl e) (k # ks) = Inl e"
| "getpath (Inr v) (k # ks) = getpath (getitem v k) ks"

section \<open>The Gemini call (\<open>call_gemini\<close>, lines 7-22)\<close>

text \<open>
  \<open>requests.post\<close> is the environment: a function from the request to either an
  exception of the transport or a response. Of a response the code reads only
  \<open>response.json()\<close>, which raises when the body is not JSON (\<open>json_body = None\<close>);
  the status code is there and never read.
\<close>

record 'n request =
  url :: str
  headers :: "(str \<times> str) list"
  params :: "(str \<times> str) list"
  json_data :: "'n json"

record 'n response =
  status_code :: int
  json_body :: "'n json option"

type_synonym 'n transport = "'n request \<Rightarrow> pyerr + 'n response"

definition response_json :: "'n response \<Rightarrow> pyerr + 'n json" where
  "response_json r = (case json_body r of None \<Rightarrow> Inl JSONDecodeError | Some j \<Rightarrow> Inr j)"

text \<open>The string of line 22; it starts with U+26A0 U+FE0F (a warning sign).\<close>

definition sentinel :: str where
  "sentinel = [9888, 65039] @ lit '' Gemini API call failed or returned unexpected response.''"

text \<open>
  The expression of line 20, \<open>response.json()["candidates"][0]["content"]["parts"][0]["text"]\<close>.
\<close>

definition first_text :: "'n response \<Rightarrow> pyerr + 'n json" where
  "first_text response =
     getpath (response_json response)
       [Name (lit ''candidates''), Idx 0, Name (lit ''content''), Name (lit ''parts''), Idx 0,
        Name (lit ''text'')]"

text \<open>
  \<open>call_gemini\<close>. The POST of line 18 stands before the \<open>try\<close> of line 19, so an
  exception it raises leaves the function; an exception of line 20 is caught by
  \<open>except Exception\<close> and replaced by the sentinel.
\<close>

definition call_gemini :: "'n transport \<Rightarrow> str \<Rightarrow> str \<Rightarrow> pyerr + 'n json" where
  "call_gemini post prompt api_key =
     (let url = lit ''https://generativelanguage.googleapis.com/v1beta/models/gemini-pro:generateContent'';
          headers = [(lit ''Content-Type'', lit ''application/json'')];
          data = JObj [(lit ''contents'',
                   JArr [JObj [(lit ''parts'', JArr [JObj [(lit ''text'', JStr prompt)]])]])];
          params = [(lit ''key'', api_key)]
      in case post \<lparr>url = url, headers = headers, params = params, json_data = data\<rparr> of
           Inl e \<Rightarrow> Inl e
         | Inr response \<Rightarrow>
             (case first_text response of
                Inr v \<Rightarrow> Inr v
              | Inl e \<Rightarrow> Inr (JStr sentinel)))"

text \<open>The response envelope \<open>{"candidates":[{"content":{"parts":[{"text": t}]}}]}\<close>.\<close>

definition envelope :: "'n json \<Rightarrow> 'n json" where
  "envelope t =
     JObj [(lit ''candidates'',
       JArr [JObj [(lit ''content'', JObj [(lit ''parts'', JArr [JObj [(lit ''text'', t)]])])]])]"

section \<open>The prompts (lines 54-58, 93-100 and 126-131)\<close>

text \<open>
  The sidebar widgets give the profile: the topic and the level are one of the listed
  options, the hours an integer of the slider, the styles the list of the chosen options
  and the goal a free text (empty when nothing is typed).
\<close>

datatype topic = DataScience | UIUX | WebDevelopment | Cybersecurity | AIMachineLearning

fun topic_name :: "topic \<Rightarrow> str" where
  "topic_name DataScience = lit ''Data Science''"
| "topic_name UIUX = lit ''UI/UX''"
| "topic_name WebDevelopment = lit ''Web Development''"
| "topic_name Cybersecurity = lit ''Cybersecurity''"
| "topic_name AIMachineLearning = lit ''AI/Machine Learning''"

datatype level = Beginner | Intermediate | Advanced

fun level_name :: "level \<Rightarrow> str" where
  "level_name Beginner = lit ''Beginner''"
| "level_name Intermediate = lit ''Intermediate''"
| "level_name Advanced = lit ''Advanced''"

datatype learning_style = Videos | Articles | HandsOnProjects | Quizzes | Flashcards

fun style_name :: "learning_style \<Rightarrow> str" where
  "style_name Videos = lit ''Videos''"
| "style_name Articles = lit ''Articles''"
| "style_name HandsOnProjects = lit ''Hands-on Projects''"
| "style_name Quizzes = lit ''Quizzes''"
| "style_name Flashcards = lit ''Flashcards''"

record profile =
  topic :: topic
  level :: level
  hours :: int
  style :: "learning_style list"
  goal :: str

text \<open>
  The f-string of lines 93-100: its literal text with the five replacement fields as
  arguments, and \<open>base_prompt\<close> with the expressions the source puts into the fields.
  Code point 39 is the single quote around the topic.
\<close>

definition learning_path_template :: "str \<Rightarrow> str \<Rightarrow> str \<Rightarrow> str \<Rightarrow> str \<Rightarrow> str" where
  "learning_path_template topic_text level_text hours_text style_text goal_text =
     lit ''You are an expert mentor. Create a detailed, step-by-step '' @ [39] @ topic_text @ [39]
       @ lit '' learning path for a '' @ level_text @ lit '' learner ''
     @ lit ''who can study '' @ hours_text @ lit '' hrs/week. Preferred learning style(s): ''
       @ style_text @ lit ''. ''
     @ lit ''Goal: '' @ goal_text @ lit ''.\<newline>''
     @ lit ''For each step/module, provide: 1) Name, 2) What to learn, 3) Curated resources (with 1-2 links), ''
     @ lit ''4) Creative project ideas, 5) A checkpoint quiz (3 questions), and 6) Estimated time in weeks.''
     @ lit ''Finish with an overall project idea and a motivational message.''"

definition base_prompt :: "profile \<Rightarrow> str" where
  "base_prompt p =
     learning_path_template (topic_name (topic p)) (level_name (level p)) (str_of_int (hours p))
       (if style p \<noteq> [] then join (lit '', '') (map style_name (style p)) else lit ''any'')
       (if goal p \<noteq> [] then goal p else lit ''Just to learn'')"

text \<open>
  The Study Buddy (lines 126-131): nothing is asked for an empty question; otherwise the
  prompt is one of two f-strings, chosen by \<open>question.startswith("http")\<close>.
\<close>

definition summary_prompt :: "str \<Rightarrow> str" where
  "summary_prompt question =
     lit ''Summarize the following resource and suggest quiz questions: '' @ question"

definition qa_prompt :: "level \<Rightarrow> topic \<Rightarrow> str \<Rightarrow> str" where
  "qa_prompt lv tp question =
     lit ''Explain for a '' @ level_name lv @ lit '' '' @ topic_name tp @ lit '' student: '' @ question"

definition buddy_prompt :: "level \<Rightarrow> topic \<Rightarrow> str \<Rightarrow> str option" where
  "buddy_prompt lv tp question =
     (if question \<noteq> [] then
        Some (if startswith question (lit ''http'') then summary_prompt question
              else qa_prompt lv tp question)
      else None)"

section \<open>The Pomodoro timer (lines 25-35 and 70-77)\<close>

text \<open>
  The keys of \<open>st.session_state\<close> the timer uses; \<open>None\<close> is a key that is not set.
\<close>

record session =
  timer_running :: "bool option"
  timer_display :: "str option"
  timer_stop :: "bool option"

text \<open>
  The loop of lines 27-33 over the values of \<open>range(duration*60, 0, -1)\<close> that are
  left: it ends at the first iteration that finds \<open>timer_stop\<close> set, and otherwise
  writes \<open>timer_display\<close>. The result lists the session state after each write.
  (The \<open>time.sleep(1)\<close> of line 33 changes no state.)
\<close>

fun countdown :: "int list \<Rightarrow> session \<Rightarrow> session list" where
  "countdown [] s = []"
| "countdown (i # rest) s =
     (if (case timer_stop s of None \<Rightarrow> False | Some b \<Rightarrow> b) then []
      else let mins = i div 60; secs = i mod 60;
               timeformat = format_02d mins @ lit '':'' @ format_02d secs;
               s' = s\<lparr>timer_display := Some timeformat\<rparr>
           in s' # countdown rest s')"

text \<open>
  \<open>pomodoro_timer\<close> returns the session states it goes through, one after each
  assignment; the last one is the state it leaves.
\<close>

definition pomodoro_timer :: "int \<Rightarrow> session \<Rightarrow> session list" where
  "pomodoro_timer duration s =
     (let s1 = s\<lparr>timer_running := Some True\<rparr>;
          steps = countdown (rev [1..duration * 60]) s1;
          s2 = last (s1 # steps);
          s3 = s2\<lparr>timer_running := Some False\<rparr>;
          s4 = s3\<lparr>timer_display := Some (lit ''00:00'')\<rparr>
      in s1 # steps @ [s3, s4])"

text \<open>
  Lines 70-73 set the two timer keys when they are missing; lines 74-77 are the handler
  of the start button, the only caller of \<open>pomodoro_timer\<close>, with 25 minutes.
\<close>

definition timer_init :: "session \<Rightarrow> session" where
  "timer_init s =
     (let s1 = (if timer_running s = None then s\<lparr>timer_running := Some False\<rparr> else s)
      in if timer_display s1 = None then s1\<lparr>timer_display := Some (lit ''25:00'')\<rparr> else s1)"

definition start_pomodoro :: "session \<Rightarrow> session list" where
  "start_pomodoro s = (let s1 = s\<lparr>timer_stop := Some False\<rparr> in s1 # pomodoro_timer 25 s1)"

text \<open>
  A string in the format MM:SS: two decimal digits, a colon (code point 58), and two
  decimal digits of which the first is at most 5.
\<close>

definition isdigit :: "nat \<Rightarrow> bool" where
  "isdigit c \<longleftrightarrow> 48 \<le> c \<and> c \<le> 57"

fun is_mmss :: "str \<Rightarrow> bool" where
  "is_mmss [m1, m2, c, s1, s2] =
     (isdigit m1 \<and> isdigit m2 \<and> c = 58 \<and> 48 \<le> s1 \<and> s1 \<le> 53 \<and> isdigit s2)"
| "is_mmss d = False"

definition display_mmss :: "session \<Rightarrow> bool" where
  "display_mmss s = (case timer_display s of None \<Rightarrow> False | Some d \<Rightarrow> is_mmss d)"

section \<open>The API key check (lines 38-48)\<close>

text \<open>
  What a run of the script does is a list of events, the Streamlit calls of lines 38-48
  and the calls to Gemini, together with the exception that ended the run, if one did.
  \<open>st.stop()\<close> ends the run: nothing after it is executed. The script after line 48
  (lines 50-164) is the continuation \<open>rest\<close>, a function of the API key; it runs only
  when line 48 is not reached. Code point 127891 is the graduation cap of the title, 34
  the double quote.
\<close>

datatype event =
  SetPageConfig str str str | Markdown str | ErrorBox str | Stop | GeminiCall str

type_synonym run = "event list \<times> pyerr option"

text \<open>
  \<open>st.secrets\<close> reads the file \<open>secrets.toml\<close>: \<open>None\<close> is no such file, \<open>Some file\<close> the
  strings the file gives to names. \<open>st.secrets.get(name, default)\<close> is the \<open>get\<close> of a
  Python mapping: it returns the default for a name the file does not hold (it catches
  the \<open>KeyError\<close> of the lookup), and it lets the exception for a missing file pass.
\<close>

definition secrets_get :: "(str \<rightharpoonup> str) option \<Rightarrow> str \<Rightarrow> str \<Rightarrow> pyerr + str" where
  "secrets_get secrets k dflt =
     (case secrets of
        None \<Rightarrow> Inl SecretNotFound
      | Some file \<Rightarrow> Inr (case file k of None \<Rightarrow> dflt | Some v \<Rightarrow> v))"

definition key_diagnostic :: str where
  "key_diagnostic =
     lit ''Gemini API key not set! Please add it to your .streamlit/secrets.toml file as GEMINI_API_KEY = ''
     @ [34] @ lit ''xxx'' @ [34]"

definition page_head :: "event list" where
  "page_head =
     [SetPageConfig (lit ''AI Learning Path Generator'') [127891] (lit ''wide''),
      Markdown (lit ''<h1 style='text-align: center; color: #4F8BF9;'>'' @ [127891]
                @ lit '' AI Learning Path Generator (Gemini-powered)</h1>'')]"

definition app :: "(str \<rightharpoonup> str) option \<Rightarrow> (str \<Rightarrow> run) \<Rightarrow> run" where
  "app secrets rest =
     (case secrets_get secrets (lit ''GEMINI_API_KEY'') (lit '''') of
        Inl e \<Rightarrow> (page_head, Some e)
      | Inr api_key \<Rightarrow>
          if api_key = [] then (page_head @ [ErrorBox key_diagnostic, Stop], None)
          else (page_head @ fst (rest api_key), snd (rest api_key)))"

fun is_call :: "event \<Rightarrow> bool" where
  "is_call (GeminiCall p) = True"
| "is_call e = False"

section \<open>The progress tracker (lines 111-121)\<close>

text \<open>
  Lines 113-115: the lines of the stored text (\<open>split('\n')\<close>, code point 10) whose
  stripped, lowercased form starts with \<open>step\<close> or \<open>module\<close>, and five placeholders
  when there is none.
\<close>

definition extract_modules :: "lowercasing \<Rightarrow> str \<Rightarrow> str list" where
  "extract_modules U learning_path =
     (let modules = [line \<leftarrow> split_on 10 learning_path.
                       startswith (lower U (strip line)) (lit ''step'')
                       \<or> startswith (lower U (strip line)) (lit ''module'')]
      in if modules = [] then map (\<lambda>i. lit ''Module '' @ str_of_int (int i + 1)) [0..<5]
         else modules)"

text \<open>
  \<open>st.multiselect\<close> (line 116) returns the options the user has chosen. Its choice is the
  list \<open>picked\<close> of positions in the option list; the widget offers each position once,
  which is \<open>valid_selection\<close>.
\<close>

definition multiselect :: "'a list \<Rightarrow> nat list \<Rightarrow> 'a list" where
  "multiselect options picked = map (\<lambda>i. options ! i) picked"

definition valid_selection :: "'a list \<Rightarrow> nat list \<Rightarrow> bool" where
  "valid_selection options picked \<longleftrightarrow> distinct picked \<and> list_all (\<lambda>i. i < length options) picked"

text \<open>
  Lines 116-121 for a module list: what is shown. \<open>progress_bar\<close> is the argument of
  \<open>st.progress\<close>, \<open>caption\<close> the text of line 119, and \<open>congratulated\<close> whether line 121
  runs. \<open>progress_tracker\<close> is lines 113-121 together.
\<close>

record tracker_view =
  module_options :: "str list"
  selected :: "str list"
  progress_bar :: rat
  caption :: str
  congratulated :: bool

definition progress_view :: "str list \<Rightarrow> nat list \<Rightarrow> pyerr + tracker_view" where
  "progress_view modules picked =
     (let completed = multiselect modules picked
      in case (if modules \<noteq> [] then truediv (length completed) (length modules) else Inr 0) of
           Inl e \<Rightarrow> Inl e
         | Inr progress \<Rightarrow>
             Inr \<lparr>module_options = modules, selected = completed, progress_bar = progress,
                  caption = lit ''**'' @ str_of_int (int (length completed)) @ lit '' / ''
                    @ str_of_int (int (length modules)) @ lit '' modules completed!**'',
                  congratulated = (progress = 1)\<rparr>)"

definition progress_tracker :: "lowercasing \<Rightarrow> str \<Rightarrow> nat list \<Rightarrow> pyerr + tracker_view" where
  "progress_tracker U learning_path picked = progress_view (extract_modules U learning_path) picked"

section \<open>Properties of the Python model\<close>

lemma rhe_nonneg: "0 \<le> x \<Longrightarrow> 0 \<le> round_half_even x"
  by (auto simp: round_half_even_def Let_def)

lemma rhe_le_floor: "round_half_even x \<le> \<lfloor>x\<rfloor> + 1"
  by (simp add: round_half_even_def Let_def)

lemma rhe_le: "x \<le> of_int N \<Longrightarrow> round_half_even x \<le> N"
proof (cases "\<lfloor>x\<rfloor> = N")
  case True
  assume "x \<le> of_int N"
  with True have "x - of_int \<lfloor>x\<rfloor> < 1 / 2" by simp
  then have "round_half_even x = \<lfloor>x\<rfloor>" by (simp add: round_half_even_def Let_def)
  with True show ?thesis by simp
next
  case False
  assume "x \<le> of_int N"
  then have "\<lfloor>x\<rfloor> \<le> N" by (simp add: floor_le_iff)
  with False have "\<lfloor>x\<rfloor> + 1 \<le> N" by simp
  with rhe_le_floor [of x] show ?thesis by linarith
qed

lemma rhe_lt: "x < of_int N - 1 / 2 \<Longrightarrow> round_half_even x < N"
proof (cases "\<lfloor>x\<rfloor> = N - 1")
  case True
  assume "x < of_int N - 1 / 2"
  with True have "x - of_int \<lfloor>x\<rfloor> < 1 / 2" by simp
  then have "round_half_even x = \<lfloor>x\<rfloor>" by (simp add: round_half_even_def Let_def)
  with True show ?thesis by simp
next
  case False
  assume "x < of_int N - 1 / 2"
  then have "x < of_int N" by simp
  then have "\<lfloor>x\<rfloor> < N" by (simp add: floor_less_iff)
  with False have "\<lfloor>x\<rfloor> + 1 < N" by simp
  with rhe_le_floor [of x] show ?thesis by linarith
qed

lemma rhe_of_int: "round_half_even (of_int n) = n"
  by (simp add: round_half_even_def)

lemma binary_exponent_upper:
  assumes "0 < q" shows "q < 2 powi (binary_exponent q + 1)"
proof (cases "1 \<le> q")
  case True
  then have pos: "0 < \<lfloor>q\<rfloor>" by (simp add: less_floor_iff)
  from bitlen_bounds [OF pos] have "\<lfloor>q\<rfloor> < 2 ^ nat (bitlen \<lfloor>q\<rfloor>)" by simp
  then have "\<lfloor>q\<rfloor> + 1 \<le> 2 ^ nat (bitlen \<lfloor>q\<rfloor>)" by simp
  then have "(of_int (\<lfloor>q\<rfloor> + 1) :: rat) \<le> of_int (2 ^ nat (bitlen \<lfloor>q\<rfloor>))"
    by (rule of_int_le_iff [THEN iffD2]) 
  moreover have "q < of_int (\<lfloor>q\<rfloor> + 1)" by linarith
  ultimately have "q < 2 ^ nat (bitlen \<lfloor>q\<rfloor>)" by simp
  moreover have "0 \<le> bitlen \<lfloor>q\<rfloor>" by (rule bitlen_nonneg)
  ultimately show ?thesis using True
    by (simp add: binary_exponent_def power_int_def)
next
  case False
  then have q1: "q < 1" by simp
  let ?n = "\<lceil>1 / q\<rceil>"
  have r1: "1 < 1 / q" using assms q1 by simp
  then have n2: "2 \<le> ?n" by (simp add: le_ceiling_iff) 
  then have pos: "0 < ?n - 1" by simp
  from bitlen_bounds [OF pos] have "2 ^ nat (bitlen (?n - 1) - 1) \<le> ?n - 1" by simp
  then have "(of_int (2 ^ nat (bitlen (?n - 1) - 1)) :: rat) \<le> of_int (?n - 1)"
    by (rule of_int_le_iff [THEN iffD2])
  moreover have "(of_int (?n - 1) :: rat) < 1 / q" by linarith
  ultimately have lt: "(2 :: rat) ^ nat (bitlen (?n - 1) - 1) < 1 / q" by simp
  have b1: "1 \<le> bitlen (?n - 1)" using pos by (simp add: bitlen_alt_def)
  have "q < 1 / 2 ^ nat (bitlen (?n - 1) - 1)"
    using lt assms by (simp add: field_simps)
  moreover have "(2::rat) powi (- bitlen (?n - 1) + 1) = 1 / 2 ^ nat (bitlen (?n - 1) - 1)"
    using b1 by (simp add: power_int_def field_simps nat_diff_distrib)
  ultimately show ?thesis using False
    by (simp add: binary_exponent_def)
qed

lemma binary_exponent_neg: "0 < q \<Longrightarrow> q < 1 \<Longrightarrow> binary_exponent q \<le> - 1"
proof -
  assume a: "0 < q" "q < 1"
  have r1: "1 < 1 / q" using a by simp
  then have n2: "2 \<le> \<lceil>1 / q\<rceil>" by (simp add: le_ceiling_iff)
  then have "1 \<le> bitlen (\<lceil>1 / q\<rceil> - 1)" by (simp add: bitlen_alt_def)
  then show ?thesis using a by (simp add: binary_exponent_def)
qed


lemma rhe_numeral: "round_half_even (numeral k) = numeral k"
  using rhe_of_int [of "numeral k"] by simp

lemma nearest_double_one: "nearest_double 1 = Some 1"
proof -
  have e: "max (binary_exponent 1) (- 1022) = 0"
    by (simp add: binary_exponent_def bitlen_alt_def)
  have u: "(2::rat) powi (0 - 52) = 1 / 2 ^ 52" by (simp add: power_int_def field_simps)
  have big: "\<not> (2::rat) powi 1024 \<le> 1" by (simp add: power_int_def)
  show ?thesis
    unfolding nearest_double_def Let_def e u using big by (simp add: rhe_numeral)
qed

lemma scaled_below_one:
  assumes q: "0 < q" "q < 1"
  defines "e \<equiv> max (binary_exponent q) (- 1022)"
  defines "ulp \<equiv> (2::rat) powi (e - 52)"
  shows "e \<le> - 1" and "0 < ulp" and "q / ulp < 2 ^ 53" and "2 ^ 53 * ulp = 2 powi (e + 1)"
    and "2 powi (e + 1) \<le> (1::rat)"
proof -
  show e: "e \<le> - 1" using binary_exponent_neg [OF q] by (simp add: e_def)
  show u: "0 < ulp" by (simp add: ulp_def)
  have "q < 2 powi (binary_exponent q + 1)" by (rule binary_exponent_upper [OF q(1)])
  also have "\<dots> \<le> 2 powi (e + 1)" by (rule power_int_increasing) (simp_all add: e_def)
  finally have lt: "q < 2 powi (e + 1)" .
  have "(2::rat) powi (e - 52 + 53) = 2 powi (e - 52) * 2 powi 53"
    by (rule power_int_add) simp
  then show s: "2 ^ 53 * ulp = 2 powi (e + 1)" by (simp add: ulp_def add.commute mult.commute)
  from lt s have "q < 2 ^ 53 * ulp" by simp
  with u show "q / ulp < 2 ^ 53" by (simp add: field_simps)
  have "(2::rat) powi (e + 1) \<le> 2 powi 0" by (rule power_int_increasing) (use e in simp_all)
  then show "2 powi (e + 1) \<le> (1::rat)" by simp
qed

lemma nearest_double_unit:
  assumes q: "0 \<le> q" "q \<le> 1"
  shows "\<exists>r. nearest_double q = Some r \<and> 0 \<le> r \<and> r \<le> 1"
proof -
  consider "q = 0" | "q = 1" | "0 < q" "q < 1" using q by fastforce
  then show ?thesis
  proof cases
    case 1 then show ?thesis by (simp add: nearest_double_def)
  next
    case 2 then show ?thesis by (simp add: nearest_double_one)
  next
    case 3
    define e where "e = max (binary_exponent q) (- 1022)"
    define ulp where "ulp = (2::rat) powi (e - 52)"
    define n where "n = round_half_even (q / ulp)"
    note f = scaled_below_one [OF 3, folded e_def, folded ulp_def]
    have "q / ulp \<le> of_int (2 ^ 53)" using f(3) by simp
    then have n_le: "n \<le> 2 ^ 53" unfolding n_def by (rule rhe_le)
    have n_ge: "0 \<le> n" unfolding n_def using 3 f(2) by (intro rhe_nonneg) simp
    from n_le have "(of_int n :: rat) \<le> of_int (2 ^ 53)" by (simp only: of_int_le_iff)
    then have "of_int n * ulp \<le> of_int (2 ^ 53) * ulp"
      using f(2) by (intro mult_right_mono) simp_all
    also have "\<dots> = 2 powi (e + 1)" using f(4) by simp
    finally have r_le: "of_int n * ulp \<le> 1" using f(5) by simp
    have r_ge: "0 \<le> of_int n * ulp" using n_ge f(2) by simp
    have "\<not> (2::rat) powi 1024 \<le> of_int n * ulp"
    proof -
      have "(1::rat) < 2 powi 1024" by (simp add: power_int_def)
      with r_le show ?thesis by simp
    qed
    then have "nearest_double q = Some (of_int n * ulp)"
      using 3 by (simp add: nearest_double_def Let_def e_def ulp_def n_def)
    with r_le r_ge show ?thesis by simp
  qed
qed

lemma nearest_double_below_one:
  assumes q: "0 < q" "q \<le> 1 - 1 / of_nat b" and b: "0 < b" "b < 2 ^ 54"
  shows "\<exists>r. nearest_double q = Some r \<and> r < 1"
proof -
  have "0 < 1 / (of_nat b :: rat)" using b by simp
  with q have q1: "q < 1" by linarith
  define e where "e = max (binary_exponent q) (- 1022)"
  define ulp where "ulp = (2::rat) powi (e - 52)"
  define n where "n = round_half_even (q / ulp)"
  note f = scaled_below_one [OF q(1) q1, folded e_def, folded ulp_def]
  have "q / ulp \<le> of_int (2 ^ 53)" using f(3) by simp
  then have n_le: "n \<le> 2 ^ 53" unfolding n_def by (rule rhe_le)
  have r_lt: "of_int n * ulp < 1"
  proof (cases "e = - 1")
    case True
    then have ulp: "ulp = 1 / 2 ^ 53" by (simp add: ulp_def power_int_def field_simps)
    have "(of_nat b :: rat) < 2 ^ 54" using b(2) by (metis of_nat_less_iff of_nat_numeral of_nat_power)
    then have "(1::rat) / 2 < 2 ^ 53 / of_nat b" using b(1) by (simp add: field_simps)
    moreover have "q * 2 ^ 53 \<le> 2 ^ 53 - 2 ^ 53 / of_nat b"
      using q(2) by (simp add: field_simps)
    ultimately have "q / ulp < of_int (2 ^ 53) - 1 / 2" by (simp add: ulp)
    then have "n < 2 ^ 53" unfolding n_def by (rule rhe_lt)
    then have "(of_int n :: rat) < of_int (2 ^ 53)" by (simp only: of_int_less_iff)
    then show ?thesis by (simp add: ulp)
  next
    case False
    with f(1) have e2: "e + 1 \<le> - 1" by simp
    from n_le have "(of_int n :: rat) \<le> of_int (2 ^ 53)" by (simp only: of_int_le_iff)
    then have "of_int n * ulp \<le> of_int (2 ^ 53) * ulp"
      using f(2) by (intro mult_right_mono) simp_all
    also have "\<dots> = 2 powi (e + 1)" using f(4) by simp
    also have "\<dots> \<le> 2 powi (- 1)" by (rule power_int_increasing) (use e2 in simp_all)
    also have "\<dots> < (1::rat)" by (simp add: power_int_def)
    finally show ?thesis .
  qed
  have "\<not> (2::rat) powi 1024 \<le> of_int n * ulp"
  proof -
    have "(1::rat) < 2 powi 1024" by (simp add: power_int_def)
    with r_lt show ?thesis by simp
  qed
  then have "nearest_double q = Some (of_int n * ulp)"
    using q(1) by (simp add: nearest_double_def Let_def e_def ulp_def n_def)
  with r_lt show ?thesis by simp
qed

lemma truediv_unit:
  assumes "a \<le> b" "b \<noteq> 0"
  shows "\<exists>r. truediv a b = Inr r \<and> 0 \<le> r \<and> r \<le> 1"
proof -
  have "0 \<le> (of_nat a :: rat) / of_nat b" by simp
  moreover have "(of_nat a :: rat) / of_nat b \<le> 1" using assms by (simp add: field_simps)
  ultimately obtain r where "nearest_double (of_nat a / of_nat b) = Some r" "0 \<le> r" "r \<le> 1"
    using nearest_double_unit by blast
  then show ?thesis using assms by (simp add: truediv_def)
qed

lemma truediv_all: "b \<noteq> 0 \<Longrightarrow> truediv b b = Inr 1"
  by (simp add: truediv_def nearest_double_one)

lemma truediv_part:
  assumes "a < b" "b < 2 ^ 54"
  shows "\<exists>r. truediv a b = Inr r \<and> r < 1"
proof (cases "a = 0")
  case True
  then show ?thesis using assms by (simp add: truediv_def nearest_double_def)
next
  case False
  from assms(1) have "Suc a \<le> b" by simp
  then have "(of_nat (Suc a) :: rat) \<le> of_nat b" by (simp only: of_nat_le_iff)
  then have "(of_nat a :: rat) + 1 \<le> of_nat b" by simp
  then have "(of_nat a :: rat) / of_nat b \<le> 1 - 1 / of_nat b"
    using assms(1) by (simp add: field_simps)
  moreover have "0 < (of_nat a :: rat) / of_nat b" using False assms(1) by simp
  ultimately obtain r where "nearest_double (of_nat a / of_nat b) = Some r" "r < 1"
    using nearest_double_below_one [of "of_nat a / of_nat b" b] assms by auto
  then show ?thesis using assms by (simp add: truediv_def)
qed

section \<open>Properties of the Gemini call\<close>

lemma first_text_envelope:
  "json_body r = Some (envelope t) \<Longrightarrow> first_text r = Inr t"
  by (simp add: first_text_def response_json_def envelope_def)

lemma call_gemini_returns:
  "post \<lparr>url = lit ''https://generativelanguage.googleapis.com/v1beta/models/gemini-pro:generateContent'',
          headers = [(lit ''Content-Type'', lit ''application/json'')],
          params = [(lit ''key'', api_key)],
          json_data = JObj [(lit ''contents'',
                   JArr [JObj [(lit ''parts'', JArr [JObj [(lit ''text'', JStr prompt)]])]])]\<rparr>
     = Inr response \<Longrightarrow>
   call_gemini post prompt api_key =
     Inr (case first_text response of Inr v \<Rightarrow> v | Inl e \<Rightarrow> JStr sentinel)"
  by (simp add: call_gemini_def split: sum.splits)

text \<open>
  C1. The claim: on any failure, a transport error raised while issuing the POST
  included, \<open>call_gemini\<close> returns the sentinel and no exception reaches the caller.
  The code does not do that for the transport: whatever the prompt and the key, an
  exception raised by the POST leaves \<open>call_gemini\<close>, and no sentinel is returned. (The
  failures after the POST has returned do give the sentinel: see
  \<open>call_gemini_sentinel_after_post\<close>.)
\<close>

theorem call_gemini_transport_error_escapes:
  "call_gemini (\<lambda>request. Inl RequestException) prompt api_key = Inl RequestException"
  by (simp add: call_gemini_def)

lemma call_gemini_sentinel_after_post:
  "call_gemini (\<lambda>request. Inr \<lparr>status_code = c, json_body = None\<rparr>) prompt api_key
     = Inr (JStr sentinel)"
  "call_gemini (\<lambda>request. Inr \<lparr>status_code = c, json_body = Some (JObj [])\<rparr>) prompt api_key
     = Inr (JStr sentinel)"
  "call_gemini (\<lambda>request. Inr \<lparr>status_code = c,
       json_body = Some (JObj [(lit ''candidates'', JArr [])])\<rparr>) prompt api_key
     = Inr (JStr sentinel)"
  by (simp_all add: call_gemini_def first_text_def response_json_def)

text \<open>
  C2. When the POST returns a response whose body is a JSON object with a list under
  \<open>candidates\<close>, whose first entry is an object with an object under \<open>content\<close>, which has
  a list under \<open>parts\<close>, whose first entry is an object with \<open>t\<close> under \<open>text\<close>, then the
  expression of line 20 raises nothing and \<open>call_gemini\<close> returns exactly \<open>t\<close>: the first
  part of the first candidate, whatever further candidates, parts and keys the body has,
  and whatever the prompt, the key and the status code are. So for the body
  \<open>{"candidates":[{"content":{"parts":[{"text":"Hello"}]}}]}\<close> it returns \<open>"Hello"\<close>.
\<close>

theorem call_gemini_first_candidate_text:
  assumes "json_body response = Some (JObj body)"
    and "map_of body (lit ''candidates'') = Some (JArr (JObj candidate # candidates))"
    and "map_of candidate (lit ''content'') = Some (JObj content)"
    and "map_of content (lit ''parts'') = Some (JArr (JObj part # parts))"
    and "map_of part (lit ''text'') = Some t"
  shows "first_text response = Inr t
    \<and> call_gemini (\<lambda>request. Inr response) prompt api_key = Inr t
    \<and> call_gemini (\<lambda>request. Inr \<lparr>status_code = c, json_body = Some (envelope t)\<rparr>)
          prompt api_key = Inr t
    \<and> call_gemini (\<lambda>request. Inr \<lparr>status_code = c,
          json_body = Some (envelope (JStr (lit ''Hello'')))\<rparr>) prompt api_key
        = Inr (JStr (lit ''Hello''))"
proof -
  have f: "first_text response = Inr t"
    using assms by (simp add: first_text_def response_json_def)
  then have "call_gemini (\<lambda>request. Inr response) prompt api_key = Inr t"
    by (simp add: call_gemini_def)
  with f show ?thesis by (simp add: call_gemini_def first_text_envelope)
qed

theorem call_gemini_first_candidate_text_witness:
  "call_gemini
     (\<lambda>request. Inr \<lparr>status_code = 200, json_body = Some
        (JObj [(lit ''usageMetadata'', JObj [(lit ''totalTokenCount'', JNum (12::int))]),
               (lit ''candidates'',
                  JArr [JObj [(lit ''finishReason'', JStr (lit ''STOP'')),
                              (lit ''content'',
                                 JObj [(lit ''role'', JStr (lit ''model'')),
                                       (lit ''parts'',
                                          JArr [JObj [(lit ''text'', JStr (lit ''Hello''))],
                                                JObj [(lit ''text'', JStr (lit ''again''))]])])],
                        JObj [(lit ''content'',
                                 JObj [(lit ''parts'',
                                          JArr [JObj [(lit ''text'', JStr (lit ''Other''))]])])]])])\<rparr>)
     (lit ''Say hello'') (lit ''secret'')
   = Inr (JStr (lit ''Hello''))"
proof -
  let ?part = "[(lit ''text'', JStr (lit ''Hello'') :: int json)]"
  let ?parts = "[JObj [(lit ''text'', JStr (lit ''again'') :: int json)]]"
  let ?content = "[(lit ''role'', JStr (lit ''model'')), (lit ''parts'', JArr (JObj ?part # ?parts))]"
  let ?candidate = "[(lit ''finishReason'', JStr (lit ''STOP'')), (lit ''content'', JObj ?content)]"
  let ?candidates = "[JObj [(lit ''content'',
      JObj [(lit ''parts'', JArr [JObj [(lit ''text'', JStr (lit ''Other'') :: int json)]])])]]"
  let ?body = "[(lit ''usageMetadata'', JObj [(lit ''totalTokenCount'', JNum (12::int))]),
      (lit ''candidates'', JArr (JObj ?candidate # ?candidates))]"
  have 1: "json_body \<lparr>status_code = 200, json_body = Some (JObj ?body)\<rparr> = Some (JObj ?body)"
    by simp
  have 2: "map_of ?body (lit ''candidates'') = Some (JArr (JObj ?candidate # ?candidates))"
    by (simp add: lit_def)
  have 3: "map_of ?candidate (lit ''content'') = Some (JObj ?content)"
    by (simp add: lit_def)
  have 4: "map_of ?content (lit ''parts'') = Some (JArr (JObj ?part # ?parts))"
    by (simp add: lit_def)
  have 5: "map_of ?part (lit ''text'') = Some (JStr (lit ''Hello''))"
    by (simp add: lit_def)
  show ?thesis
    by (rule call_gemini_first_candidate_text [OF 1 2 3 4 5, THEN conjunct2, THEN conjunct1])
qed

section \<open>Properties of the prompts\<close>

lemma summary_not_qa: "summary_prompt q \<noteq> qa_prompt lv tp q'"
  by (simp add: summary_prompt_def qa_prompt_def lit_def)

text \<open>
  C3. The Study Buddy uses the resource-summary prompt exactly for the questions that
  start with the four characters \<open>http\<close>, and the question-and-answer prompt exactly for
  the other non-empty questions; the two prompts are never the same string. So the
  question \<open>http\<close> alone gets the summary prompt and \<open>How do I start?\<close> the
  question-and-answer prompt. (For the empty question nothing is asked.)
\<close>

theorem buddy_prompt_dispatch:
  "(buddy_prompt lv tp q = Some (summary_prompt q)) = startswith q (lit ''http'')
   \<and> (buddy_prompt lv tp q = Some (qa_prompt lv tp q)) = (q \<noteq> [] \<and> \<not> startswith q (lit ''http''))
   \<and> startswith q (lit ''http'') = (\<exists>r. q = lit ''http'' @ r)
   \<and> summary_prompt q \<noteq> qa_prompt lv tp q
   \<and> buddy_prompt lv tp (lit ''http'') = Some (summary_prompt (lit ''http''))
   \<and> buddy_prompt lv tp (lit ''How do I start?'') = Some (qa_prompt lv tp (lit ''How do I start?''))"
proof -
  have a: "(buddy_prompt lv tp q = Some (summary_prompt q)) = startswith q (lit ''http'')"
    using summary_not_qa [of q lv tp q]
    by (auto simp: buddy_prompt_def startswith_def prefix_def lit_def)
  have b: "(buddy_prompt lv tp q = Some (qa_prompt lv tp q))
      = (q \<noteq> [] \<and> \<not> startswith q (lit ''http''))"
    using summary_not_qa [of q lv tp q]
    by (auto simp: buddy_prompt_def)
  have c: "startswith q (lit ''http'') = (\<exists>r. q = lit ''http'' @ r)"
    by (simp add: startswith_def prefix_def)
  have d: "buddy_prompt lv tp (lit ''http'') = Some (summary_prompt (lit ''http''))"
    by (simp add: buddy_prompt_def startswith_def lit_def)
  have e: "buddy_prompt lv tp (lit ''How do I start?'')
      = Some (qa_prompt lv tp (lit ''How do I start?''))"
    by (simp add: buddy_prompt_def startswith_def lit_def)
  from a b c d e summary_not_qa [of q lv tp q] show ?thesis by simp
qed


text \<open>
  C7. In the learning-path prompt the field for the styles holds \<open>any\<close> when no style
  is selected and otherwise the selected styles joined by a comma and a space (so
  \<open>Videos, Hands-on Projects, Quizzes\<close> for these three); the field for the goal holds
  \<open>Just to learn\<close> when the goal is empty and otherwise the goal as typed. The last
  equation says where the fields stand in the text.
\<close>

theorem base_prompt_optional_fields:
  "(style p = [] \<longrightarrow> goal p = [] \<longrightarrow>
      base_prompt p = learning_path_template (topic_name (topic p)) (level_name (level p))
        (str_of_int (hours p)) (lit ''any'') (lit ''Just to learn''))
   \<and> (style p = [] \<longrightarrow> goal p \<noteq> [] \<longrightarrow>
      base_prompt p = learning_path_template (topic_name (topic p)) (level_name (level p))
        (str_of_int (hours p)) (lit ''any'') (goal p))
   \<and> (style p \<noteq> [] \<longrightarrow> goal p = [] \<longrightarrow>
      base_prompt p = learning_path_template (topic_name (topic p)) (level_name (level p))
        (str_of_int (hours p)) (join (lit '', '') (map style_name (style p))) (lit ''Just to learn''))
   \<and> (style p \<noteq> [] \<longrightarrow> goal p \<noteq> [] \<longrightarrow>
      base_prompt p = learning_path_template (topic_name (topic p)) (level_name (level p))
        (str_of_int (hours p)) (join (lit '', '') (map style_name (style p))) (goal p))
   \<and> join (lit '', '') (map style_name [Videos, HandsOnProjects, Quizzes])
       = lit ''Videos, Hands-on Projects, Quizzes''
   \<and> learning_path_template t l h s g =
       lit ''You are an expert mentor. Create a detailed, step-by-step '' @ [39] @ t @ [39]
       @ lit '' learning path for a '' @ l @ lit '' learner who can study '' @ h
       @ lit '' hrs/week. Preferred learning style(s): '' @ s @ lit ''. Goal: '' @ g
       @ lit ''.\<newline>For each step/module, provide: 1) Name, 2) What to learn, 3) Curated resources (with 1-2 links), 4) Creative project ideas, 5) A checkpoint quiz (3 questions), and 6) Estimated time in weeks.Finish with an overall project idea and a motivational message.''"
proof -
  have j: "join (lit '', '') (map style_name [Videos, HandsOnProjects, Quizzes])
       = lit ''Videos, Hands-on Projects, Quizzes''"
    by (simp add: lit_def)
  have t: "learning_path_template t l h s g =
       lit ''You are an expert mentor. Create a detailed, step-by-step '' @ [39] @ t @ [39]
       @ lit '' learning path for a '' @ l @ lit '' learner who can study '' @ h
       @ lit '' hrs/week. Preferred learning style(s): '' @ s @ lit ''. Goal: '' @ g
       @ lit ''.\<newline>For each step/module, provide: 1) Name, 2) What to learn, 3) Curated resources (with 1-2 links), 4) Creative project ideas, 5) A checkpoint quiz (3 questions), and 6) Estimated time in weeks.Finish with an overall project idea and a motivational message.''"
    by (simp add: learning_path_template_def lit_def)
  show ?thesis
    unfolding j t [symmetric] by (simp add: base_prompt_def)
qed

theorem base_prompt_optional_fields_witness:
  "style \<lparr>topic = UIUX, level = Beginner, hours = 5, style = [], goal = []\<rparr> = []
   \<and> goal \<lparr>topic = UIUX, level = Beginner, hours = 5, style = [], goal = []\<rparr> = []
   \<and> base_prompt \<lparr>topic = UIUX, level = Beginner, hours = 5, style = [], goal = []\<rparr>
      = learning_path_template (lit ''UI/UX'') (lit ''Beginner'') (lit ''5'')
          (lit ''any'') (lit ''Just to learn'')
   \<and> style \<lparr>topic = UIUX, level = Beginner, hours = 5, style = [Videos, Quizzes],
         goal = lit ''Get a job''\<rparr> \<noteq> []
   \<and> goal \<lparr>topic = UIUX, level = Beginner, hours = 5, style = [Videos, Quizzes],
         goal = lit ''Get a job''\<rparr> \<noteq> []
   \<and> base_prompt \<lparr>topic = UIUX, level = Beginner, hours = 5, style = [Videos, Quizzes],
         goal = lit ''Get a job''\<rparr>
      = learning_path_template (lit ''UI/UX'') (lit ''Beginner'') (lit ''5'')
          (lit ''Videos, Quizzes'') (lit ''Get a job'')"
  using base_prompt_optional_fields
      [of "\<lparr>topic = UIUX, level = Beginner, hours = 5, style = [], goal = []\<rparr>"]
    base_prompt_optional_fields
      [of "\<lparr>topic = UIUX, level = Beginner, hours = 5, style = [Videos, Quizzes],
         goal = lit ''Get a job''\<rparr>"]
  by (simp add: str_of_int_def digits.simps lit_def)

section \<open>Properties of the timer\<close>

lemma digits_one: "n < 10 \<Longrightarrow> digits n = [48 + n]"
  by (simp add: digits.simps)

lemma digits_two: "10 \<le> n \<Longrightarrow> n < 100 \<Longrightarrow> digits n = [48 + n div 10, 48 + n mod 10]"
  by (subst digits.simps) (simp add: digits_one)

lemma format_02d_two:
  assumes "0 \<le> m" "m < 100"
  shows "format_02d m = [48 + nat m div 10, 48 + nat m mod 10]"
proof (cases "nat m < 10")
  case True
  then show ?thesis using assms by (simp add: format_02d_def digits_one)
next
  case False
  then have "10 \<le> nat m" "nat m < 100" using assms by simp_all
  then show ?thesis using assms by (simp add: format_02d_def digits_two)
qed

lemma is_mmss_format:
  assumes "1 \<le> i" "i \<le> 5999"
  shows "is_mmss (format_02d (i div 60) @ lit '':'' @ format_02d (i mod 60))"
proof -
  have m: "0 \<le> i div 60" "i div 60 < 100" using assms by presburger+
  have s: "0 \<le> i mod 60" "i mod 60 < 60" using assms by simp_all
  then have s': "i mod 60 < 100" by simp
  have d1: "nat (i div 60) div 10 \<le> 9" using m by simp
  have d2: "nat (i mod 60) div 10 \<le> 5" using s by simp
  have d3: "nat (i div 60) mod 10 \<le> 9" "nat (i mod 60) mod 10 \<le> 9" by simp_all
  show ?thesis
    unfolding format_02d_two [OF m] format_02d_two [OF s(1) s']
    using d1 d2 d3 by (simp add: lit_def isdigit_def)
qed

lemma countdown_mmss:
  "list_all (\<lambda>i. 1 \<le> i \<and> i \<le> 5999) xs \<Longrightarrow> list_all display_mmss (countdown xs s)"
proof (induction xs arbitrary: s)
  case Nil
  show ?case by simp
next
  case (Cons i xs)
  then show ?case
    by (simp add: Let_def display_mmss_def is_mmss_format del: is_mmss.simps)
qed

lemma pomodoro_timer_mmss:
  assumes d: "duration \<le> 99" and s: "display_mmss s"
  shows "list_all display_mmss (pomodoro_timer duration s)"
    and "timer_display (last (pomodoro_timer duration s)) = Some (lit ''00:00'')"
    and "timer_running (last (pomodoro_timer duration s)) = Some False"
proof -
  let ?s1 = "s\<lparr>timer_running := Some True\<rparr>"
  let ?steps = "countdown (rev [1..duration * 60]) ?s1"
  have "list_all (\<lambda>i. 1 \<le> i \<and> i \<le> 5999) (rev [1..duration * 60])"
    using d by (auto simp: list_all_iff)
  then have steps: "list_all display_mmss ?steps" by (rule countdown_mmss)
  have s1: "display_mmss ?s1" using s by (simp add: display_mmss_def)
  have "list_all display_mmss (?s1 # ?steps)" using s1 steps by simp
  then have l: "display_mmss (last (?s1 # ?steps))"
    unfolding list_all_iff using last_in_set [of "?s1 # ?steps"] by blast
  then have s3: "display_mmss (last (?s1 # ?steps)\<lparr>timer_running := Some False\<rparr>)"
    by (simp add: display_mmss_def)
  have s4: "display_mmss (last (?s1 # ?steps)\<lparr>timer_running := Some False,
      timer_display := Some (lit ''00:00'')\<rparr>)"
    by (simp add: display_mmss_def lit_def isdigit_def)
  show "list_all display_mmss (pomodoro_timer duration s)"
    unfolding pomodoro_timer_def Let_def using s1 steps s3 s4 by simp
  show "timer_display (last (pomodoro_timer duration s)) = Some (lit ''00:00'')"
    by (simp add: pomodoro_timer_def Let_def)
  show "timer_running (last (pomodoro_timer duration s)) = Some False"
    by (simp add: pomodoro_timer_def Let_def)
qed

lemma pomodoro_timer_100:
  "timer_stop s \<noteq> Some True \<Longrightarrow>
   timer_display (pomodoro_timer 100 s ! 1) = Some (lit ''100:00'')"
proof -
  assume st: "timer_stop s \<noteq> Some True"
  have "[1..(6000::int)] = [1..5999] @ [6000]" by (subst upto_rec2) simp_all
  then have r: "rev [1..(6000::int)] = 6000 # rev [1..5999]" by simp
  have f: "format_02d 100 = lit ''100''" "format_02d 0 = lit ''00''"
    by (simp_all add: format_02d_def digits.simps lit_def)
  show ?thesis using st
    by (auto simp add: pomodoro_timer_def Let_def r f lit_def split: option.splits)
qed

text \<open>
  C9. Every write of \<open>timer_display\<close> keeps it a string in the format MM:SS. The
  initialisation makes the key present, writes \<open>25:00\<close> when it was missing and leaves
  a value that was there. When the value is MM:SS before the start button is handled,
  it is MM:SS in every state the handler goes through (after each update in the loop
  of the 25-minute countdown and after the final reset), and the handler leaves
  \<open>00:00\<close>. The same holds for \<open>pomodoro_timer\<close> with any duration up to 99 minutes
  (\<open>pomodoro_timer_100\<close>: with 100 minutes the first update writes \<open>100:00\<close>; the
  script calls it with 25 only).
\<close>

theorem timer_display_always_mmss:
  "timer_display (timer_init s) \<noteq> None
   \<and> (timer_display s = None \<longrightarrow> timer_display (timer_init s) = Some (lit ''25:00''))
   \<and> (timer_display s = None \<or> display_mmss s \<longrightarrow> display_mmss (timer_init s))
   \<and> (display_mmss s \<longrightarrow>
        list_all display_mmss (start_pomodoro s)
        \<and> timer_display (last (start_pomodoro s)) = Some (lit ''00:00''))
   \<and> (display_mmss s \<longrightarrow> duration \<le> 99 \<longrightarrow>
        list_all display_mmss (pomodoro_timer duration s)
        \<and> timer_display (last (pomodoro_timer duration s)) = Some (lit ''00:00''))"
proof -
  have i1: "timer_display (timer_init s) \<noteq> None"
    by (simp add: timer_init_def Let_def)
  have i2: "timer_display s = None \<longrightarrow> timer_display (timer_init s) = Some (lit ''25:00'')"
    by (simp add: timer_init_def Let_def)
  have i3: "timer_display s = None \<or> display_mmss s \<longrightarrow> display_mmss (timer_init s)"
    by (auto simp: timer_init_def Let_def display_mmss_def lit_def isdigit_def)
  have i4: "display_mmss s \<longrightarrow>
        list_all display_mmss (start_pomodoro s)
        \<and> timer_display (last (start_pomodoro s)) = Some (lit ''00:00'')"
  proof
    assume a: "display_mmss s"
    let ?s1 = "s\<lparr>timer_stop := Some False\<rparr>"
    have s1: "display_mmss ?s1" using a by (simp add: display_mmss_def)
    show "list_all display_mmss (start_pomodoro s)
        \<and> timer_display (last (start_pomodoro s)) = Some (lit ''00:00'')"
      using s1 pomodoro_timer_mmss(1,2) [of 25 ?s1]
      by (simp add: start_pomodoro_def Let_def pomodoro_timer_def)
  qed
  have i5: "display_mmss s \<longrightarrow> duration \<le> 99 \<longrightarrow>
        list_all display_mmss (pomodoro_timer duration s)
        \<and> timer_display (last (pomodoro_timer duration s)) = Some (lit ''00:00'')"
    using pomodoro_timer_mmss(1,2) [of duration s] by blast
  from i1 i2 i3 i4 i5 show ?thesis by blast
qed

theorem timer_display_always_mmss_witness:
  "timer_display \<lparr>timer_running = None, timer_display = None,
       timer_stop = None\<rparr> = None
   \<and> timer_init \<lparr>timer_running = None, timer_display = None,
       timer_stop = None\<rparr>
      = \<lparr>timer_running = Some False, timer_display = Some (lit ''25:00''),
         timer_stop = None\<rparr>
   \<and> display_mmss \<lparr>timer_running = Some False,
         timer_display = Some (lit ''25:00''), timer_stop = None\<rparr>
   \<and> list_all display_mmss (start_pomodoro \<lparr>timer_running = Some False,
         timer_display = Some (lit ''25:00''), timer_stop = None\<rparr>)
   \<and> timer_display (last (start_pomodoro \<lparr>timer_running = Some False,
         timer_display = Some (lit ''25:00''), timer_stop = None\<rparr>)) = Some (lit ''00:00'')"
proof -
  let ?s0 = "\<lparr>timer_running = None, timer_display = None, timer_stop = None\<rparr>"
  let ?s1 = "\<lparr>timer_running = Some False,
         timer_display = Some (lit ''25:00''), timer_stop = None\<rparr>"
  have i: "timer_init ?s0 = ?s1" by (simp add: timer_init_def)
  have n: "timer_display ?s0 = None" by simp
  from timer_display_always_mmss [of ?s0] n i have d: "display_mmss ?s1" by simp
  with timer_display_always_mmss [of ?s1]
  have "list_all display_mmss (start_pomodoro ?s1)
     \<and> timer_display (last (start_pomodoro ?s1)) = Some (lit ''00:00'')" by blast
  with n i d show ?thesis by simp
qed

section \<open>Properties of the API key check\<close>

text \<open>
  When there is a secrets file and it holds no \<open>GEMINI_API_KEY\<close>, or an empty one, the
  run consists of the page configuration, the title, the error box and the stop,
  whatever the rest of the script is: it raises nothing, it contains no call to Gemini,
  and the text of the error box names the file \<open>.streamlit/secrets.toml\<close> and the name
  \<open>GEMINI_API_KEY\<close>. With a key that is not empty the rest of the script runs.
\<close>

lemma key_diagnostic_names:
  "sublist (lit ''.streamlit/secrets.toml'') key_diagnostic
   \<and> sublist (lit ''GEMINI_API_KEY'') key_diagnostic"
proof -
  have d1: "sublist (lit ''.streamlit/secrets.toml'') key_diagnostic"
    unfolding key_diagnostic_def
    using sublist_appendI [of "lit ''.streamlit/secrets.toml''"
        "lit ''Gemini API key not set! Please add it to your ''"
        "lit '' file as GEMINI_API_KEY = '' @ [34] @ lit ''xxx'' @ [34]"]
    by (simp add: lit_def)
  have d2: "sublist (lit ''GEMINI_API_KEY'') key_diagnostic"
    unfolding key_diagnostic_def
    using sublist_appendI [of "lit ''GEMINI_API_KEY''"
        "lit ''Gemini API key not set! Please add it to your .streamlit/secrets.toml file as ''"
        "lit '' = '' @ [34] @ lit ''xxx'' @ [34]"]
    by (simp add: lit_def)
  from d1 d2 show ?thesis by simp
qed

lemma missing_key_halts:
  assumes "file (lit ''GEMINI_API_KEY'') = None \<or> file (lit ''GEMINI_API_KEY'') = Some []"
  shows "app (Some file) rest = (page_head @ [ErrorBox key_diagnostic, Stop], None)
         \<and> \<not> list_ex is_call (fst (app (Some file) rest))"
proof -
  have "secrets_get (Some file) (lit ''GEMINI_API_KEY'') (lit '''') = Inr []"
    using assms by (auto simp: secrets_get_def lit_def)
  then show ?thesis by (simp add: app_def page_head_def)
qed

lemma present_key_continues:
  "file (lit ''GEMINI_API_KEY'') = Some k \<Longrightarrow> k \<noteq> [] \<Longrightarrow>
   app (Some file) rest = (page_head @ fst (rest k), snd (rest k))"
  by (simp add: app_def secrets_get_def)

text \<open>
  C8. The claim: when the API key is absent, the start-up halts after a diagnostic that
  tells where to put the key. The code does not do that when the key is absent because
  there is no secrets file: line 45 raises, the run ends there with that exception after
  the page configuration and the title, and neither the error box of line 47 nor the stop
  of line 48 is reached, whatever the rest of the script is. (Nothing else runs in that
  case either: no call to Gemini is made.)
\<close>

theorem missing_secrets_file_raises:
  "app None rest = (page_head, Some SecretNotFound)
   \<and> ErrorBox key_diagnostic \<notin> set (fst (app None rest))
   \<and> Stop \<notin> set (fst (app None rest))
   \<and> \<not> list_ex is_call (fst (app None rest))"
  by (simp add: app_def secrets_get_def page_head_def)

section \<open>Properties of the progress tracker\<close>

lemma split_on_nonempty: "split_on sep s \<noteq> []"
  by (induction s) (auto split: list.splits)

lemma join_split_on: "join [sep] (split_on sep s) = s"
proof (induction s)
  case Nil
  show ?case by simp
next
  case (Cons c cs)
  obtain l ls where ls: "split_on sep cs = l # ls"
    using split_on_nonempty [of sep cs] by (cases "split_on sep cs") auto
  with Cons show ?case by (cases ls) auto
qed

lemma split_on_no_sep: "l \<in> set (split_on sep s) \<Longrightarrow> sep \<notin> set l"
proof (induction s arbitrary: l)
  case Nil
  then show ?case by simp
next
  case (Cons c cs)
  obtain l' ls where ls: "split_on sep cs = l' # ls"
    using split_on_nonempty [of sep cs] by (cases "split_on sep cs") auto
  with Cons show ?case by (auto split: if_splits)
qed

lemma length_split_on: "length (split_on sep s) = Suc (count_list s sep)"
proof (induction s)
  case Nil
  show ?case by simp
next
  case (Cons c cs)
  obtain l' ls where ls: "split_on sep cs = l' # ls"
    using split_on_nonempty [of sep cs] by (cases "split_on sep cs") auto
  with Cons show ?case by auto
qed

lemma placeholders:
  "map (\<lambda>i. lit ''Module '' @ str_of_int (int i + 1)) [0..<5] =
     [lit ''Module 1'', lit ''Module 2'', lit ''Module 3'', lit ''Module 4'', lit ''Module 5'']"
  by (simp add: upt_rec str_of_int_def digits.simps lit_def)

lemma extract_modules_nonempty: "extract_modules U text \<noteq> []"
  by (simp add: extract_modules_def Let_def)

text \<open>
  On a text of ASCII characters the lowercasing of the other code points plays no part.
\<close>

lemma lower_from_ascii:
  "list_all (\<lambda>c. c < 128) s \<Longrightarrow>
   lower_from U l s = map (\<lambda>c. if 65 \<le> c \<and> c \<le> 90 then c + 32 else c) s"
  by (induction s arbitrary: l) simp_all

lemma lower_ascii:
  "list_all (\<lambda>c. c < 128) s \<Longrightarrow>
   lower U s = map (\<lambda>c. if 65 \<le> c \<and> c \<le> 90 then c + 32 else c) s"
  by (simp add: lower_def lower_from_ascii)

lemma set_strip: "set (strip s) \<subseteq> set s"
proof -
  have "set (strip s) \<subseteq> set (dropWhile isspace s)"
    unfolding strip_def using set_dropWhileD [of _ isspace "rev (dropWhile isspace s)"] by auto
  also have "\<dots> \<subseteq> set s" using set_dropWhileD [of _ isspace s] by auto
  finally show ?thesis .
qed

lemma set_split_on: "l \<in> set (split_on sep s) \<Longrightarrow> set l \<subseteq> set s"
proof (induction s arbitrary: l)
  case Nil
  then show ?case by simp
next
  case (Cons c cs)
  obtain l' ls where ls: "split_on sep cs = l' # ls"
    using split_on_nonempty [of sep cs] by (cases "split_on sep cs") auto
  have ih: "set x \<subseteq> set cs" if "x = l' \<or> x \<in> set ls" for x
    using Cons.IH [of x] that ls by auto
  show ?case
  proof (cases "c = sep")
    case True
    with Cons.prems ls have "l = [] \<or> l = l' \<or> l \<in> set ls" by auto
    with ih show ?thesis by auto
  next
    case False
    with Cons.prems ls have "l = c # l' \<or> l \<in> set ls" by auto
    with ih [of l'] ih [of l] show ?thesis by auto
  qed
qed

lemma extract_modules_ascii:
  assumes "list_all (\<lambda>c. c < 128) text"
  shows "extract_modules U text = extract_modules V text"
proof -
  have "lower U (strip l) = lower V (strip l)" if "l \<in> set (split_on 10 text)" for l
  proof -
    have "set (strip l) \<subseteq> set text" using set_strip [of l] set_split_on [OF that] by blast
    with assms have "list_all (\<lambda>c. c < 128) (strip l)" by (auto simp: list_all_iff)
    then show ?thesis by (simp add: lower_ascii)
  qed
  then have "filter (\<lambda>line. startswith (lower U (strip line)) (lit ''step'')
                 \<or> startswith (lower U (strip line)) (lit ''module'')) (split_on 10 text)
      = filter (\<lambda>line. startswith (lower V (strip line)) (lit ''step'')
                 \<or> startswith (lower V (strip line)) (lit ''module'')) (split_on 10 text)"
    by (intro filter_cong) simp_all
  then show ?thesis by (simp add: extract_modules_def)
qed

text \<open>
  C5. The module list is the list of those lines of the text whose stripped and
  lowercased form starts with \<open>step\<close> or \<open>module\<close>, in their order and as they stand in
  the text, unless there is no such line: then it is the five placeholders \<open>Module 1\<close>
  to \<open>Module 5\<close>. A text of five lines of which two match gives exactly these two; a
  text without a matching line gives the five placeholders.
\<close>

theorem extract_modules_spec:
  "(let kept = filter (\<lambda>line. prefix (lit ''step'') (lower U (strip line))
                         \<or> prefix (lit ''module'') (lower U (strip line)))
                 (split_on 10 text)
    in extract_modules U text =
        (if kept = [] then
           [lit ''Module 1'', lit ''Module 2'', lit ''Module 3'', lit ''Module 4'', lit ''Module 5'']
         else kept))
   \<and> extract_modules U (lit ''My plan\<newline>Step 1: Basics\<newline>  module 2: Practice\<newline>\<newline>Good luck!'')
       = [lit ''Step 1: Basics'', lit ''  module 2: Practice'']
   \<and> length (extract_modules U (lit ''My plan\<newline>Step 1: Basics\<newline>  module 2: Practice\<newline>\<newline>Good luck!'')) = 2
   \<and> extract_modules U (lit ''My plan\<newline>**Step 1**\<newline>Good luck!'')
       = [lit ''Module 1'', lit ''Module 2'', lit ''Module 3'', lit ''Module 4'', lit ''Module 5'']"
proof -
  have a: "extract_modules U (lit ''My plan\<newline>Step 1: Basics\<newline>  module 2: Practice\<newline>\<newline>Good luck!'')
       = [lit ''Step 1: Basics'', lit ''  module 2: Practice'']"
    by (simp add: extract_modules_def lit_def startswith_def strip_def isspace_def lower_def)
  have b: "extract_modules U (lit ''My plan\<newline>**Step 1**\<newline>Good luck!'')
       = [lit ''Module 1'', lit ''Module 2'', lit ''Module 3'', lit ''Module 4'', lit ''Module 5'']"
    unfolding extract_modules_def Let_def placeholders
    by (simp add: lit_def startswith_def strip_def isspace_def lower_def)
  show ?thesis
    unfolding a b by (simp add: extract_modules_def Let_def placeholders startswith_def)
qed

lemma valid_selection_length:
  assumes "valid_selection xs picked"
  shows "length picked \<le> length xs"
    and "(length picked = length xs) = (set picked = {..<length xs})"
proof -
  from assms have d: "distinct picked" and sub: "set picked \<subseteq> {..<length xs}"
    by (auto simp: valid_selection_def list_all_iff)
  from d have c: "card (set picked) = length picked" by (rule distinct_card)
  from sub have "card (set picked) \<le> card {..<length xs}" by (intro card_mono) simp_all
  with c show le: "length picked \<le> length xs" by simp
  show "(length picked = length xs) = (set picked = {..<length xs})"
  proof
    assume "length picked = length xs"
    with c have "card (set picked) = card {..<length xs}" by simp
    with sub show "set picked = {..<length xs}" by (intro card_subset_eq) simp_all
  next
    assume "set picked = {..<length xs}"
    with c show "length picked = length xs" by simp
  qed
qed

lemma selected_all_values:
  assumes v: "valid_selection xs picked" and d: "distinct xs"
  shows "(set xs \<subseteq> set (multiselect xs picked)) = (set picked = {..<length xs})"
proof
  assume "set picked = {..<length xs}"
  then have "set (multiselect xs picked) = (\<lambda>i. xs ! i) ` {..<length xs}"
    by (simp add: multiselect_def)
  also have "\<dots> = set xs" by (auto simp: set_conv_nth)
  finally show "set xs \<subseteq> set (multiselect xs picked)" by simp
next
  assume sub: "set xs \<subseteq> set (multiselect xs picked)"
  from d have "length xs = card (set xs)" by (simp add: distinct_card)
  also have "\<dots> \<le> card (set (multiselect xs picked))" using sub by (intro card_mono) simp_all
  also have "\<dots> \<le> length (multiselect xs picked)" by (rule card_length)
  also have "\<dots> = length picked" by (simp add: multiselect_def)
  finally have "length xs \<le> length picked" .
  with valid_selection_length(1) [OF v] have "length picked = length xs" by simp
  with valid_selection_length(2) [OF v] show "set picked = {..<length xs}" by simp
qed

text \<open>
  C6, as amended. For every non-empty module list and every selection of entries of it,
  the progress is exactly 1 if and only if every entry of the list is selected, that is,
  if and only if as many modules are completed as there are; when no line occurs twice
  in the module list, that is the case if and only if every module is in the set of the
  completed ones; and the congratulation is shown exactly when the progress is 1. The
  list is taken to have fewer than \<open>2\<^sup>5\<^sup>4\<close> entries, as every list that fits in memory has:
  the quotient of line 117 is a float (\<open>truediv_tie\<close>).
\<close>

theorem progress_one_iff_all_completed:
  assumes ne: "modules \<noteq> []" and v: "valid_selection modules picked"
    and small: "length modules < 2 ^ 54"
  shows "\<exists>view. progress_view modules picked = Inr view
           \<and> (progress_bar view = 1) = (set picked = {..<length modules})
           \<and> (progress_bar view = 1) = (length (selected view) = length modules)
           \<and> congratulated view = (progress_bar view = 1)
           \<and> (distinct modules \<longrightarrow> (progress_bar view = 1) = (set modules \<subseteq> set (selected view)))"
proof -
  let ?a = "length (multiselect modules picked)" and ?b = "length modules"
  have a: "?a = length picked" by (simp add: multiselect_def)
  have le: "?a \<le> ?b" using valid_selection_length(1) [OF v] a by simp
  have b0: "?b \<noteq> 0" using ne by simp
  have "\<exists>r. truediv ?a ?b = Inr r \<and> (r = 1) = (?a = ?b)"
  proof (cases "?a = ?b")
    case True
    then show ?thesis using truediv_all [OF b0] by simp
  next
    case False
    with le have "?a < ?b" by simp
    from truediv_part [OF this small] False show ?thesis by auto
  qed
  then obtain r where r: "truediv ?a ?b = Inr r" "(r = 1) = (?a = ?b)" by blast
  let ?view = "\<lparr>module_options = modules, selected = multiselect modules picked, progress_bar = r,
      caption = lit ''**'' @ str_of_int (int ?a) @ lit '' / '' @ str_of_int (int ?b)
        @ lit '' modules completed!**'',
      congratulated = (r = 1)\<rparr>"
  have "progress_view modules picked = Inr ?view"
    using r(1) ne by (simp add: progress_view_def Let_def)
  moreover have "(r = 1) = (set picked = {..<length modules})"
    using r(2) a valid_selection_length(2) [OF v] by simp
  moreover have "distinct modules \<longrightarrow> (r = 1) = (set modules \<subseteq> set (multiselect modules picked))"
    using selected_all_values [OF v] r(2) a valid_selection_length(2) [OF v] by simp
  ultimately show ?thesis using r(2) by simp
qed

theorem progress_one_iff_all_completed_witness:
  "[lit ''Step 1: Basics'', lit ''Module 2: Practice''] \<noteq> []
   \<and> valid_selection [lit ''Step 1: Basics'', lit ''Module 2: Practice''] [1, 0]
   \<and> length [lit ''Step 1: Basics'', lit ''Module 2: Practice''] < 2 ^ 54
   \<and> (\<exists>view. progress_view [lit ''Step 1: Basics'', lit ''Module 2: Practice''] [1, 0] = Inr view
         \<and> progress_bar view = 1 \<and> congratulated view)
   \<and> valid_selection [lit ''Step 1: Basics'', lit ''Module 2: Practice''] [1]
   \<and> (\<exists>view. progress_view [lit ''Step 1: Basics'', lit ''Module 2: Practice''] [1] = Inr view
         \<and> progress_bar view \<noteq> 1 \<and> \<not> congratulated view)"
proof -
  let ?ms = "[lit ''Step 1: Basics'', lit ''Module 2: Practice'']"
  have ne: "?ms \<noteq> []" by simp
  have v: "valid_selection ?ms [1, 0]" by (simp add: valid_selection_def)
  have v1: "valid_selection ?ms [1]" by (simp add: valid_selection_def)
  have small: "length ?ms < 2 ^ 54" by simp
  have all: "set [1, 0] = {..<length ?ms}" by auto
  have part: "set [1] \<noteq> {..<length ?ms}" by auto
  from progress_one_iff_all_completed [OF ne v small] all
  have a: "\<exists>view. progress_view ?ms [1, 0] = Inr view \<and> progress_bar view = 1 \<and> congratulated view"
    by auto
  from progress_one_iff_all_completed [OF ne v1 small] part
  have b: "\<exists>view. progress_view ?ms [1] = Inr view \<and> progress_bar view \<noteq> 1 \<and> \<not> congratulated view"
    by auto
  from ne v v1 small a b show ?thesis by blast
qed

text \<open>
  C10. For every text (and every lowercasing of the non-ASCII code points) the module
  list is not empty, so the division of line 117 never raises \<open>ZeroDivisionError\<close>,
  whatever is selected; and for a selection of positions of the module list the tracker
  raises nothing and the progress lies between 0 and 1.
\<close>

theorem progress_defined_in_unit_interval:
  "extract_modules U text \<noteq> []
   \<and> progress_tracker U text picked \<noteq> Inl ZeroDivisionError
   \<and> (valid_selection (extract_modules U text) picked \<longrightarrow>
        (\<exists>view. progress_tracker U text picked = Inr view
           \<and> 0 \<le> progress_bar view \<and> progress_bar view \<le> 1))"
proof -
  let ?ms = "extract_modules U text"
  have ne: "?ms \<noteq> []" by (rule extract_modules_nonempty)
  have nz: "progress_tracker U text picked \<noteq> Inl ZeroDivisionError"
    using ne
    by (auto simp: progress_tracker_def progress_view_def truediv_def Let_def split: sum.splits option.splits)
  { assume v: "valid_selection ?ms picked"
    have "length (multiselect ?ms picked) \<le> length ?ms"
      using valid_selection_length(1) [OF v] by (simp add: multiselect_def)
    from truediv_unit [OF this] ne obtain r
      where "truediv (length (multiselect ?ms picked)) (length ?ms) = Inr r" "0 \<le> r" "r \<le> 1"
      by auto
    then have "\<exists>view. progress_tracker U text picked = Inr view
           \<and> 0 \<le> progress_bar view \<and> progress_bar view \<le> 1"
      using ne by (simp add: progress_tracker_def progress_view_def Let_def) }
  with ne nz show ?thesis by blast
qed

theorem progress_defined_in_unit_interval_witness:
  "valid_selection (extract_modules (\<lambda>l c r. [c]) (lit ''Step 1: Basics\<newline>notes\<newline>Module 2: Practice'')) [0]
   \<and> (\<exists>view. progress_tracker (\<lambda>l c r. [c]) (lit ''Step 1: Basics\<newline>notes\<newline>Module 2: Practice'') [0] = Inr view
         \<and> 0 \<le> progress_bar view \<and> progress_bar view \<le> 1)"
proof -
  have e: "extract_modules (\<lambda>l c r. [c]) (lit ''Step 1: Basics\<newline>notes\<newline>Module 2: Practice'')
      = [lit ''Step 1: Basics'', lit ''Module 2: Practice'']"
    by (simp add: extract_modules_def lit_def startswith_def strip_def isspace_def lower_def)
  have v: "valid_selection (extract_modules (\<lambda>l c r. [c]) (lit ''Step 1: Basics\<newline>notes\<newline>Module 2: Practice'')) [0]"
    unfolding e by (simp add: valid_selection_def)
  with progress_defined_in_unit_interval
    [of "\<lambda>l c r. [c]" "lit ''Step 1: Basics\<newline>notes\<newline>Module 2: Practice''" "[0]"]
  show ?thesis by blast
qed

text \<open>
  The double nearest to \<open>(2\<^sup>5\<^sup>4 - 1) / 2\<^sup>5\<^sup>4\<close> is 1: the quotient lies halfway between
  \<open>1 - 2\<^sup>-\<^sup>5\<^sup>3\<close> and 1, and the tie goes to the even significand.
\<close>

lemma nearest_double_tie: "nearest_double (18014398509481983 / 18014398509481984) = Some 1"
  by code_simp

lemma truediv_tie: "truediv (2 ^ 54 - 1) (2 ^ 54) = Inr 1"
proof -
  have "(of_nat (2 ^ 54 - 1) :: rat) / of_nat (2 ^ 54) = 18014398509481983 / 18014398509481984"
    by simp
  then show ?thesis by (simp add: truediv_def nearest_double_tie del: of_nat_diff of_nat_power)
qed

lemma truediv_half: "truediv 1 2 = Inr (1 / 2)"
  by code_simp

text \<open>
  C6 as stated does not hold for a text in which a module line occurs twice. For the text
  of the two lines \<open>Step 1\<close> and \<open>Step 1\<close> with the first of them marked as completed,
  every module of the list is in the set of the completed ones, and yet the progress is
  one half and no congratulation is shown.
\<close>

theorem progress_half_with_every_module_completed:
  "\<exists>view. progress_tracker (\<lambda>l c r. [c]) (lit ''Step 1\<newline>Step 1'') [0] = Inr view
      \<and> module_options view = [lit ''Step 1'', lit ''Step 1'']
      \<and> selected view = [lit ''Step 1'']
      \<and> set (module_options view) \<subseteq> set (selected view)
      \<and> valid_selection (module_options view) [0]
      \<and> progress_bar view = 1 / 2
      \<and> progress_bar view \<noteq> 1
      \<and> \<not> congratulated view"
proof -
  have e: "extract_modules (\<lambda>l c r. [c]) (lit ''Step 1\<newline>Step 1'')
      = [lit ''Step 1'', lit ''Step 1'']"
    by (simp add: extract_modules_def lit_def startswith_def strip_def isspace_def lower_def)
  have h: "truediv (Suc 0) (Suc (Suc 0)) = Inr (1 / 2)"
    using truediv_half by (simp add: numeral_2_eq_2)
  show ?thesis
    unfolding progress_tracker_def e
    by (simp add: progress_view_def multiselect_def Let_def h valid_selection_def)
qed

end
